theory Spec2Isabelle
  imports Main
begin

section \<open>ESP32 BLE LED controller: the firmware sketch main.cpp\<close>

text \<open>
  The sketch keeps three global flags and talks to four platform devices: the GPIO pins,
  the GATT characteristic, the advertiser and the serial port. The model threads one
  record through every function: the three globals as the source declares them, and
  for each platform device what the sketch has done to it.
\<close>

subsection \<open>Data\<close>

datatype level = LOW | HIGH

datatype pin_mode = INPUT | OUTPUT

record device =
  deviceConnected :: bool
  oldDeviceConnected :: bool
  ledState :: bool
  gpioMode :: "nat \<Rightarrow> pin_mode option"
  gpioLevel :: "nat \<Rightarrow> level"
  charValue :: string
  notified :: "string list"
  advertised :: "nat list"
  serial :: string
  clock :: nat

text \<open>
  \<open>gpioLevel\<close> is the level each pin was last driven to, \<open>charValue\<close> the value
  stored in the one characteristic, \<open>notified\<close> the payloads of the notifications sent
  so far (oldest first), \<open>advertised\<close> the times of the advertising-start requests so
  far (oldest first), \<open>serial\<close> the bytes written to the serial port so far, and
  \<open>clock\<close> the milliseconds the sketch has spent inside \<open>delay\<close>, which bounds the
  elapsed time from below.
\<close>

definition LED_PIN :: nat where
  "LED_PIN = 2"

subsection \<open>Platform primitives\<close>

text \<open>
  The Arduino core and the BLE library are not part of the repository. Each primitive
  below is modelled from the spec: section 1 names them as opaque capabilities (drive a
  digital output pin, store a characteristic value, send a notification, start
  advertising, write to a one-way text log).
\<close>

definition crlf :: string where
  "crlf = [CHR 0x0D, CHR 0x0A]"

text \<open>Modelled from the spec: \<open>pinMode(pin, mode)\<close> configures one pin.\<close>

definition pinMode :: "nat \<Rightarrow> pin_mode \<Rightarrow> device \<Rightarrow> device" where
  "pinMode pin m s = s\<lparr>gpioMode := (gpioMode s)(pin := Some m)\<rparr>"

text \<open>Modelled from the spec: \<open>digitalWrite(pin, level)\<close> drives one pin, leaving the others.\<close>

definition digitalWrite :: "nat \<Rightarrow> level \<Rightarrow> device \<Rightarrow> device" where
  "digitalWrite pin lv s = s\<lparr>gpioLevel := (gpioLevel s)(pin := lv)\<rparr>"

text \<open>Modelled from the spec: \<open>Serial.print(c)\<close> writes one byte to the log stream.\<close>

definition Serial_print :: "char \<Rightarrow> device \<Rightarrow> device" where
  "Serial_print c s = s\<lparr>serial := serial s @ [c]\<rparr>"

text \<open>
  Modelled from the spec: \<open>Serial.println(text)\<close> writes the text and a line end;
  \<open>Serial.println()\<close> is the case of the empty text.
\<close>

definition Serial_println :: "string \<Rightarrow> device \<Rightarrow> device" where
  "Serial_println txt s = s\<lparr>serial := serial s @ txt @ crlf\<rparr>"

text \<open>Modelled from the spec: \<open>getValue()\<close> reads the characteristic's stored value.\<close>

definition getValue :: "device \<Rightarrow> string" where
  "getValue s = charValue s"

text \<open>Modelled from the spec: \<open>setValue(v)\<close> overwrites the characteristic's stored value.\<close>

definition setValue :: "string \<Rightarrow> device \<Rightarrow> device" where
  "setValue v s = s\<lparr>charValue := v\<rparr>"

text \<open>
  Modelled from the spec: \<open>notify()\<close> pushes the characteristic's current value to the
  client; the model records the request with the value it carries.
\<close>

definition notify :: "device \<Rightarrow> device" where
  "notify s = s\<lparr>notified := notified s @ [charValue s]\<rparr>"

text \<open>
  Modelled from the spec: \<open>startAdvertising()\<close> asks the stack to advertise; the model
  records the request with the time it is made.
\<close>

definition startAdvertising :: "device \<Rightarrow> device" where
  "startAdvertising s = s\<lparr>advertised := advertised s @ [clock s]\<rparr>"

subsection \<open>Connection callbacks (class MyServerCallbacks)\<close>

definition onConnect :: "device \<Rightarrow> device" where
  "onConnect s = Serial_println ''Device connected'' (s\<lparr>deviceConnected := True\<rparr>)"

definition onDisconnect :: "device \<Rightarrow> device" where
  "onDisconnect s = Serial_println ''Device disconnected'' (s\<lparr>deviceConnected := False\<rparr>)"

subsection \<open>Write callback (class MyCallbacks)\<close>

text \<open>
  The echo loop \<open>for (int i = 0; i < rxValue.length(); i++) Serial.print(rxValue[i])\<close>,
  with the index as the source has it. A characteristic value is at most a few hundred
  bytes, far below the range of \<open>int\<close>.
\<close>

function echo_loop :: "nat \<Rightarrow> string \<Rightarrow> device \<Rightarrow> device" where
  "echo_loop i rxValue s =
     (if i < length rxValue then echo_loop (Suc i) rxValue (Serial_print (rxValue ! i) s)
      else s)"
  by pat_completeness auto
termination
  by (relation "measure (\<lambda>(i, rxValue, s). length rxValue - i)") auto

declare echo_loop.simps [simp del]

definition onWrite :: "device \<Rightarrow> device" where
  "onWrite s =
     (let rxValue = getValue s in
      if length rxValue > 0 then
        (let s1 = Serial_println ''Received: '' s;
             s2 = echo_loop 0 rxValue s1;
             s3 = Serial_println [] s2
         in if rxValue = ''ON'' then
              (let s4 = digitalWrite LED_PIN HIGH s3;
                   s5 = s4\<lparr>ledState := True\<rparr>
               in Serial_println ''LED turned ON'' s5)
            else if rxValue = ''OFF'' then
              (let s4 = digitalWrite LED_PIN LOW s3;
                   s5 = s4\<lparr>ledState := False\<rparr>
               in Serial_println ''LED turned OFF'' s5)
            else if rxValue = ''TOGGLE'' then
              (let s4 = s3\<lparr>ledState := \<not> ledState s3\<rparr>;
                   s5 = digitalWrite LED_PIN (if ledState s4 then HIGH else LOW) s4
               in Serial_println (if ledState s5 then ''LED toggled ON'' else ''LED toggled OFF'') s5)
            else if rxValue = ''STATUS'' then
              (let status = (if ledState s3 then ''LED_ON'' else ''LED_OFF'');
                   s4 = setValue status s3;
                   s5 = notify s4
               in Serial_println (''Status sent: '' @ status) s5)
            else s3)
      else s)"

subsection \<open>Events delivered by the BLE stack\<close>

text \<open>
  The stack calls the callbacks on its own schedule. A client's write stores the payload
  in the characteristic and then calls \<open>onWrite\<close>, which reads it back with
  \<open>getValue\<close>.
\<close>

datatype event = Connect | Disconnect | Write string

fun deliver :: "event \<Rightarrow> device \<Rightarrow> device" where
  "deliver Connect s = onConnect s"
| "deliver Disconnect s = onDisconnect s"
| "deliver (Write payload) s = onWrite (setValue payload s)"

definition deliver_all :: "event list \<Rightarrow> device \<Rightarrow> device" where
  "deliver_all evs s = foldl (\<lambda>t e. deliver e t) s evs"

text \<open>
  Modelled from the spec: \<open>delay(ms)\<close> blocks the sketch for \<open>ms\<close> milliseconds. The
  callbacks do not run concurrently with the loop body (spec section 5), so the events
  that arrive while the sketch is running are the ones delivered while it sleeps:
  \<open>evs\<close> is the list of events the stack delivers during this delay.
\<close>

definition delay :: "nat \<Rightarrow> event list \<Rightarrow> device \<Rightarrow> device" where
  "delay ms evs s = (deliver_all evs s)\<lparr>clock := clock s + ms\<rparr>"

subsection \<open>setup and loop\<close>

text \<open>
  The state at power-on: the globals as initialised at their declarations, nothing sent
  or logged yet, the characteristic not yet created (it is created empty), and the pins
  at whatever levels \<open>lv\<close> the hardware resets to.
\<close>

definition power_on :: "(nat \<Rightarrow> level) \<Rightarrow> device" where
  "power_on lv =
     \<lparr>deviceConnected = False, oldDeviceConnected = False, ledState = False,
      gpioMode = (\<lambda>p. None), gpioLevel = lv, charValue = [], notified = [],
      advertised = [], serial = [], clock = 0\<rparr>"

text \<open>
  \<open>setup()\<close>. The calls that only configure the serial port or build and register the
  BLE objects (\<open>Serial.begin\<close>, \<open>BLEDevice::init\<close>, \<open>createServer\<close>,
  \<open>setCallbacks\<close>, \<open>createService\<close>, \<open>createCharacteristic\<close>,
  \<open>addDescriptor\<close>, \<open>start\<close>, and the three advertising parameters) change
  nothing the record holds.
\<close>

definition setup_sketch :: "device \<Rightarrow> device" where
  "setup_sketch s =
     (let s1 = Serial_println ''Starting ESP32 BLE LED Control'' s;
          s2 = pinMode LED_PIN OUTPUT s1;
          s3 = digitalWrite LED_PIN LOW s2;
          s4 = setValue ''Hello World'' s3;
          s5 = startAdvertising s4
      in Serial_println ''Waiting for a client connection to notify...'' s5)"

text \<open>The two guards of \<open>loop()\<close>.\<close>

definition disconnect_edge :: "device \<Rightarrow> bool" where
  "disconnect_edge s = (\<not> deviceConnected s \<and> oldDeviceConnected s)"

definition connect_edge :: "device \<Rightarrow> bool" where
  "connect_edge s = (deviceConnected s \<and> \<not> oldDeviceConnected s)"

text \<open>The first \<open>if\<close> of \<open>loop()\<close>; \<open>evs\<close> arrive during its \<open>delay(500)\<close>.\<close>

definition loop_disconnect :: "event list \<Rightarrow> device \<Rightarrow> device" where
  "loop_disconnect evs s =
     (if disconnect_edge s then
        (let s1 = delay 500 evs s;
             s2 = startAdvertising s1;
             s3 = Serial_println ''Start advertising'' s2
         in s3\<lparr>oldDeviceConnected := deviceConnected s3\<rparr>)
      else s)"

text \<open>The second \<open>if\<close> of \<open>loop()\<close>.\<close>

definition loop_connect :: "device \<Rightarrow> device" where
  "loop_connect s =
     (if connect_edge s then s\<lparr>oldDeviceConnected := deviceConnected s\<rparr> else s)"

text \<open>
  One iteration of \<open>loop()\<close>: \<open>evs1\<close> arrive during the \<open>delay(500)\<close> if that branch
  runs, \<open>evs2\<close> during the closing \<open>delay(10)\<close>.
\<close>

definition loop :: "event list \<Rightarrow> event list \<Rightarrow> device \<Rightarrow> device" where
  "loop evs1 evs2 s = delay 10 evs2 (loop_connect (loop_disconnect evs1 s))"

subsection \<open>Observations and the specification's command semantics\<close>

definition in_sync :: "device \<Rightarrow> bool" where
  "in_sync s = (gpioLevel s LED_PIN = (if ledState s then HIGH else LOW))"

datatype command = ON | OFF | TOGGLE

fun token :: "command \<Rightarrow> string" where
  "token ON = ''ON''"
| "token OFF = ''OFF''"
| "token TOGGLE = ''TOGGLE''"

fun spec_step :: "bool \<Rightarrow> command \<Rightarrow> bool" where
  "spec_step b ON = True"
| "spec_step b OFF = False"
| "spec_step b TOGGLE = (\<not> b)"

text \<open>
  What the device does after \<open>setup()\<close>: the runtime calls \<open>loop()\<close> again and again,
  and the stack delivers events in between.
\<close>

datatype action = Event event | Loop "event list" "event list"

fun perform :: "action \<Rightarrow> device \<Rightarrow> device" where
  "perform (Event e) s = deliver e s"
| "perform (Loop evs1 evs2) s = loop evs1 evs2 s"

definition run :: "action list \<Rightarrow> device \<Rightarrow> device" where
  "run acts s = foldl (\<lambda>t a. perform a t) s acts"

fun events_of :: "action \<Rightarrow> event list" where
  "events_of (Event e) = [e]"
| "events_of (Loop evs1 evs2) = evs1 @ evs2"

definition all_events :: "action list \<Rightarrow> event list" where
  "all_events acts = concat (map events_of acts)"

text \<open>The three state flags of the sketch, apart from what it has sent to the platform.\<close>

definition flags :: "device \<Rightarrow> bool \<times> bool \<times> bool" where
  "flags s = (deviceConnected s, oldDeviceConnected s, ledState s)"

text \<open>
  A step from \<open>s\<close> to \<open>t\<close> pairs the flag with the pin: either it left both the flag
  and the pin levels alone, or it ends with the pin at the flag's level.
\<close>

definition paired :: "device \<Rightarrow> device \<Rightarrow> bool" where
  "paired s t = ((ledState t = ledState s \<and> gpioLevel t = gpioLevel s) \<or> in_sync t)"

text \<open>The events that are writes of a client to the characteristic.\<close>

fun is_write :: "event \<Rightarrow> bool" where
  "is_write (Write payload) = True"
| "is_write Connect = False"
| "is_write Disconnect = False"

text \<open>A concrete reset level for the pins, for the examples.\<close>

definition all_low :: "nat \<Rightarrow> level" where
  "all_low p = LOW"

section \<open>Properties\<close>

subsection \<open>What each callback computes\<close>

lemma echo_loop_eq: "echo_loop i rx s = s\<lparr>serial := serial s @ drop i rx\<rparr>"
proof (induction i rx s rule: echo_loop.induct)
  case (1 i rx s)
  show ?case
  proof (cases "i < length rx")
    case True
    then have "drop i rx = rx ! i # drop (Suc i) rx"
      by (simp add: Cons_nth_drop_Suc)
    with True 1 show ?thesis
      by (subst echo_loop.simps) (simp add: Serial_print_def)
  next
    case False
    then show ?thesis
      by (subst echo_loop.simps) simp
  qed
qed

lemmas prims = Serial_println_def Serial_print_def digitalWrite_def pinMode_def
  getValue_def setValue_def notify_def startAdvertising_def

lemma onWrite_empty: "charValue s = [] \<Longrightarrow> onWrite s = s"
  by (simp add: onWrite_def getValue_def)

lemma onWrite_ON:
  "charValue s = ''ON'' \<Longrightarrow> onWrite s =
     s\<lparr>ledState := True, gpioLevel := (gpioLevel s)(LED_PIN := HIGH),
       serial := serial s @ ''Received: '' @ crlf @ ''ON'' @ crlf @ ''LED turned ON'' @ crlf\<rparr>"
  by (simp add: onWrite_def echo_loop_eq prims Let_def)

lemma onWrite_OFF:
  "charValue s = ''OFF'' \<Longrightarrow> onWrite s =
     s\<lparr>ledState := False, gpioLevel := (gpioLevel s)(LED_PIN := LOW),
       serial := serial s @ ''Received: '' @ crlf @ ''OFF'' @ crlf @ ''LED turned OFF'' @ crlf\<rparr>"
  by (simp add: onWrite_def echo_loop_eq prims Let_def)

lemma onWrite_TOGGLE:
  "charValue s = ''TOGGLE'' \<Longrightarrow> onWrite s =
     s\<lparr>ledState := \<not> ledState s,
       gpioLevel := (gpioLevel s)(LED_PIN := (if ledState s then LOW else HIGH)),
       serial := serial s @ ''Received: '' @ crlf @ ''TOGGLE'' @ crlf @
         (if ledState s then ''LED toggled OFF'' else ''LED toggled ON'') @ crlf\<rparr>"
  by (simp add: onWrite_def echo_loop_eq prims Let_def)

lemma onWrite_STATUS:
  "charValue s = ''STATUS'' \<Longrightarrow> onWrite s =
     s\<lparr>charValue := (if ledState s then ''LED_ON'' else ''LED_OFF''),
       notified := notified s @ [if ledState s then ''LED_ON'' else ''LED_OFF''],
       serial := serial s @ ''Received: '' @ crlf @ ''STATUS'' @ crlf @
         ''Status sent: '' @ (if ledState s then ''LED_ON'' else ''LED_OFF'') @ crlf\<rparr>"
  by (simp add: onWrite_def echo_loop_eq prims Let_def)

lemma onWrite_other:
  "charValue s \<noteq> [] \<Longrightarrow> charValue s \<noteq> ''ON'' \<Longrightarrow> charValue s \<noteq> ''OFF'' \<Longrightarrow>
   charValue s \<noteq> ''TOGGLE'' \<Longrightarrow> charValue s \<noteq> ''STATUS'' \<Longrightarrow>
   onWrite s = s\<lparr>serial := serial s @ ''Received: '' @ crlf @ charValue s @ crlf\<rparr>"
  by (simp add: onWrite_def echo_loop_eq prims Let_def)

lemma deliver_all_Nil [simp]: "deliver_all [] s = s"
  by (simp add: deliver_all_def)

lemma deliver_all_Cons [simp]: "deliver_all (e # evs) s = deliver_all evs (deliver e s)"
  by (simp add: deliver_all_def)

lemma deliver_all_append: "deliver_all (xs @ ys) s = deliver_all ys (deliver_all xs s)"
  by (simp add: deliver_all_def)

lemma run_Nil [simp]: "run [] s = s"
  by (simp add: run_def)

lemma run_Cons [simp]: "run (a # acts) s = run acts (perform a s)"
  by (simp add: run_def)

lemma run_append: "run (xs @ ys) s = run ys (run xs s)"
  by (simp add: run_def)

lemma onWrite_cases:
  obtains (empty) "charValue s = []"
  | (on) "charValue s = ''ON''"
  | (off) "charValue s = ''OFF''"
  | (toggle) "charValue s = ''TOGGLE''"
  | (status) "charValue s = ''STATUS''"
  | (other) "charValue s \<noteq> []" "charValue s \<noteq> ''ON''" "charValue s \<noteq> ''OFF''"
      "charValue s \<noteq> ''TOGGLE''" "charValue s \<noteq> ''STATUS''"
  by blast

subsection \<open>The flag and the pin move together\<close>

lemma paired_refl: "paired s s"
  by (simp add: paired_def)

lemma paired_trans: "paired s t \<Longrightarrow> paired t u \<Longrightarrow> paired s u"
  by (auto simp: paired_def in_sync_def)

lemma paired_same: "ledState t = ledState s \<Longrightarrow> gpioLevel t = gpioLevel s \<Longrightarrow> paired s t"
  by (simp add: paired_def)

lemma paired_in_sync: "in_sync s \<Longrightarrow> paired s t \<Longrightarrow> in_sync t"
  by (auto simp: paired_def in_sync_def)

lemma paired_onWrite: "paired s (onWrite s)"
proof (cases s rule: onWrite_cases)
  case empty then show ?thesis by (simp add: onWrite_empty paired_refl)
next
  case on then show ?thesis by (simp add: onWrite_ON paired_def in_sync_def)
next
  case off then show ?thesis by (simp add: onWrite_OFF paired_def in_sync_def)
next
  case toggle then show ?thesis by (simp add: onWrite_TOGGLE paired_def in_sync_def)
next
  case status then show ?thesis by (simp add: onWrite_STATUS paired_def)
next
  case other then show ?thesis by (simp add: onWrite_other paired_def)
qed

lemma paired_deliver: "paired s (deliver e s)"
proof (cases e)
  case Connect then show ?thesis by (simp add: onConnect_def Serial_println_def paired_def)
next
  case Disconnect then show ?thesis by (simp add: onDisconnect_def Serial_println_def paired_def)
next
  case (Write p)
  have "paired s (setValue p s)" by (simp add: setValue_def paired_def)
  then show ?thesis
    using paired_onWrite [of "setValue p s"] by (simp add: Write paired_trans)
qed

lemma paired_deliver_all: "paired s (deliver_all evs s)"
proof (induction evs arbitrary: s)
  case Nil
  show ?case by (simp add: paired_refl)
next
  case (Cons e evs)
  show ?case
    using paired_deliver [of s e] Cons.IH [of "deliver e s"] by (simp add: paired_trans)
qed

lemma paired_delay: "paired s (delay ms evs s)"
proof -
  have "paired (deliver_all evs s) (delay ms evs s)"
    by (simp add: delay_def paired_def)
  with paired_deliver_all [of s evs] show ?thesis
    by (rule paired_trans)
qed

lemma paired_loop_disconnect: "paired s (loop_disconnect evs s)"
proof (cases "disconnect_edge s")
  case True
  have "paired (delay 500 evs s) (loop_disconnect evs s)"
    using True by (simp add: loop_disconnect_def Let_def prims paired_def)
  with paired_delay [of s 500 evs] show ?thesis
    by (rule paired_trans)
next
  case False
  then show ?thesis by (simp add: loop_disconnect_def paired_refl)
qed

lemma paired_loop_connect: "paired s (loop_connect s)"
  by (simp add: loop_connect_def paired_def)

lemma paired_loop: "paired s (loop evs1 evs2 s)"
  unfolding loop_def
  by (blast intro: paired_trans paired_loop_disconnect paired_loop_connect paired_delay)

lemma paired_perform: "paired s (perform a s)"
  by (cases a) (simp_all add: paired_deliver paired_loop)

lemma paired_run: "paired s (run acts s)"
proof (induction acts arbitrary: s)
  case Nil
  show ?case by (simp add: paired_refl)
next
  case (Cons a acts)
  show ?case
    using paired_perform [of s a] Cons.IH [of "perform a s"] by (simp add: paired_trans)
qed

lemma setup_sketch_eq:
  "setup_sketch s =
     s\<lparr>gpioMode := (gpioMode s)(LED_PIN := Some OUTPUT),
       gpioLevel := (gpioLevel s)(LED_PIN := LOW),
       charValue := ''Hello World'',
       advertised := advertised s @ [clock s],
       serial := serial s @ ''Starting ESP32 BLE LED Control'' @ crlf @
         ''Waiting for a client connection to notify...'' @ crlf\<rparr>"
  by (simp add: setup_sketch_def Let_def prims)

lemma in_sync_setup: "in_sync (setup_sketch (power_on lv))"
  by (simp add: setup_sketch_eq power_on_def in_sync_def)

lemma ledState_setup: "ledState (setup_sketch (power_on lv)) = False"
  by (simp add: setup_sketch_eq power_on_def)

subsection \<open>Commands\<close>

lemma ledState_deliver_token:
  "ledState (deliver (Write (token c)) s) = spec_step (ledState s) c"
  by (cases c) (simp_all add: onWrite_ON onWrite_OFF onWrite_TOGGLE setValue_def)

lemma ledState_deliver_tokens:
  "ledState (deliver_all (map (Write \<circ> token) cmds) s) = foldl spec_step (ledState s) cmds"
  by (induction cmds arbitrary: s) (simp_all add: ledState_deliver_token del: deliver.simps)

subsection \<open>What the callbacks leave alone\<close>

lemma onWrite_frame:
  "deviceConnected (onWrite s) = deviceConnected s
   \<and> oldDeviceConnected (onWrite s) = oldDeviceConnected s
   \<and> advertised (onWrite s) = advertised s
   \<and> clock (onWrite s) = clock s"
proof (cases s rule: onWrite_cases)
  case empty then show ?thesis by (simp add: onWrite_empty)
next
  case on then show ?thesis by (simp add: onWrite_ON)
next
  case off then show ?thesis by (simp add: onWrite_OFF)
next
  case toggle then show ?thesis by (simp add: onWrite_TOGGLE)
next
  case status then show ?thesis by (simp add: onWrite_STATUS)
next
  case other then show ?thesis by (simp add: onWrite_other)
qed

lemma deliver_frame:
  "oldDeviceConnected (deliver e s) = oldDeviceConnected s
   \<and> advertised (deliver e s) = advertised s
   \<and> clock (deliver e s) = clock s"
proof (cases e)
  case Connect then show ?thesis by (simp add: onConnect_def Serial_println_def)
next
  case Disconnect then show ?thesis by (simp add: onDisconnect_def Serial_println_def)
next
  case (Write p)
  then show ?thesis
    using onWrite_frame [of "setValue p s"] by (simp add: setValue_def)
qed

lemma deliver_all_frame:
  "oldDeviceConnected (deliver_all evs s) = oldDeviceConnected s
   \<and> advertised (deliver_all evs s) = advertised s
   \<and> clock (deliver_all evs s) = clock s"
  by (induction evs arbitrary: s) (simp_all add: deliver_frame del: deliver.simps)

lemma deviceConnected_deliver:
  "deviceConnected (deliver e s) =
     (case e of Connect \<Rightarrow> True | Disconnect \<Rightarrow> False | Write p \<Rightarrow> deviceConnected s)"
proof (cases e)
  case Connect then show ?thesis by (simp add: onConnect_def Serial_println_def)
next
  case Disconnect then show ?thesis by (simp add: onDisconnect_def Serial_println_def)
next
  case (Write p)
  then show ?thesis
    using onWrite_frame [of "setValue p s"] by (simp add: setValue_def)
qed

lemma stays_disconnected:
  "Connect \<notin> set evs \<Longrightarrow> \<not> deviceConnected s \<Longrightarrow> \<not> deviceConnected (deliver_all evs s)"
proof (induction evs arbitrary: s)
  case Nil
  then show ?case by simp
next
  case (Cons e evs)
  from Cons.prems have "\<not> deviceConnected (deliver e s)"
    by (cases e) (simp_all add: deviceConnected_deliver del: deliver.simps)
  with Cons show ?case by simp
qed

lemma stays_connected:
  "Disconnect \<notin> set evs \<Longrightarrow> deviceConnected s \<Longrightarrow> deviceConnected (deliver_all evs s)"
proof (induction evs arbitrary: s)
  case Nil
  then show ?case by simp
next
  case (Cons e evs)
  from Cons.prems have "deviceConnected (deliver e s)"
    by (cases e) (simp_all add: deviceConnected_deliver del: deliver.simps)
  with Cons show ?case by simp
qed

subsection \<open>The control loop\<close>

lemma delay_fields:
  "oldDeviceConnected (delay ms evs s) = oldDeviceConnected s"
  "advertised (delay ms evs s) = advertised s"
  "clock (delay ms evs s) = clock s + ms"
  "deviceConnected (delay ms evs s) = deviceConnected (deliver_all evs s)"
  by (simp_all add: delay_def deliver_all_frame)

lemma loop_disconnect_taken:
  assumes "disconnect_edge s"
  shows "advertised (loop_disconnect evs s) = advertised s @ [clock s + 500]"
    and "oldDeviceConnected (loop_disconnect evs s) = deviceConnected (delay 500 evs s)"
    and "deviceConnected (loop_disconnect evs s) = deviceConnected (delay 500 evs s)"
  using assms by (simp_all add: loop_disconnect_def Let_def prims delay_fields)

lemma loop_disconnect_skipped: "\<not> disconnect_edge s \<Longrightarrow> loop_disconnect evs s = s"
  by (simp add: loop_disconnect_def)

lemma loop_connect_fields:
  "advertised (loop_connect s) = advertised s"
  "deviceConnected (loop_connect s) = deviceConnected s"
  "oldDeviceConnected (loop_connect s) = (oldDeviceConnected s \<or> deviceConnected s)"
  by (auto simp: loop_connect_def connect_edge_def)

lemma loop_fields:
  "advertised (loop evs1 evs2 s) = advertised (loop_disconnect evs1 s)"
  "oldDeviceConnected (loop evs1 evs2 s)
     = (oldDeviceConnected (loop_disconnect evs1 s) \<or> deviceConnected (loop_disconnect evs1 s))"
  "deviceConnected (loop evs1 evs2 s)
     = deviceConnected (deliver_all evs2 (loop_connect (loop_disconnect evs1 s)))"
  by (simp_all add: loop_def delay_fields loop_connect_fields)

lemma loop_synchronised:
  assumes "deviceConnected s = oldDeviceConnected s"
  shows "advertised (loop evs1 evs2 s) = advertised s"
proof -
  from assms have "\<not> disconnect_edge s"
    by (simp add: disconnect_edge_def)
  then show ?thesis
    by (simp add: loop_fields loop_disconnect_skipped)
qed

text \<open>With no client connecting, a device whose two flags are both false stays so.\<close>

lemma idle_perform:
  assumes "\<not> deviceConnected s" "\<not> oldDeviceConnected s" "Connect \<notin> set (events_of a)"
  shows "\<not> deviceConnected (perform a s) \<and> \<not> oldDeviceConnected (perform a s)
    \<and> advertised (perform a s) = advertised s"
proof (cases a)
  case (Event e)
  with assms show ?thesis
    using stays_disconnected [of "[e]" s] by (simp add: deliver_frame del: deliver.simps)
next
  case (Loop evs1 evs2)
  from assms have skip: "loop_disconnect evs1 s = s"
    by (simp add: loop_disconnect_skipped disconnect_edge_def)
  from assms have same: "loop_connect s = s"
    by (simp add: loop_connect_def connect_edge_def)
  from assms Loop have "\<not> deviceConnected (deliver_all evs2 s)"
    by (intro stays_disconnected) simp_all
  with assms Loop skip same show ?thesis
    by (simp add: loop_fields)
qed

lemma idle_run:
  assumes "\<not> deviceConnected s" "\<not> oldDeviceConnected s" "Connect \<notin> set (all_events acts)"
  shows "\<not> deviceConnected (run acts s) \<and> \<not> oldDeviceConnected (run acts s)
    \<and> advertised (run acts s) = advertised s"
  using assms
proof (induction acts arbitrary: s)
  case Nil
  then show ?case by simp
next
  case (Cons a acts)
  from Cons.prems have "Connect \<notin> set (events_of a)" "Connect \<notin> set (all_events acts)"
    by (simp_all add: all_events_def)
  with Cons.prems idle_perform [of s a] Cons.IH [of "perform a s"] show ?case
    by simp
qed

text \<open>With no client disconnecting, a device whose two flags are both true stays so.\<close>

lemma linked_perform:
  assumes "deviceConnected s" "oldDeviceConnected s" "Disconnect \<notin> set (events_of a)"
  shows "deviceConnected (perform a s) \<and> oldDeviceConnected (perform a s)"
proof (cases a)
  case (Event e)
  with assms show ?thesis
    using stays_connected [of "[e]" s] by (simp add: deliver_frame del: deliver.simps)
next
  case (Loop evs1 evs2)
  from assms have skip: "loop_disconnect evs1 s = s"
    by (simp add: loop_disconnect_skipped disconnect_edge_def)
  from assms have same: "loop_connect s = s"
    by (simp add: loop_connect_def connect_edge_def)
  from assms Loop have "deviceConnected (deliver_all evs2 s)"
    by (intro stays_connected) simp_all
  with assms Loop skip same show ?thesis
    by (simp add: loop_fields)
qed

lemma linked_run:
  assumes "deviceConnected s" "oldDeviceConnected s" "Disconnect \<notin> set (all_events acts)"
  shows "deviceConnected (run acts s) \<and> oldDeviceConnected (run acts s)"
  using assms
proof (induction acts arbitrary: s)
  case Nil
  then show ?case by simp
next
  case (Cons a acts)
  from Cons.prems have "Disconnect \<notin> set (events_of a)" "Disconnect \<notin> set (all_events acts)"
    by (simp_all add: all_events_def)
  with Cons.prems linked_perform [of s a] Cons.IH [of "perform a s"] show ?case
    by simp
qed

text \<open>The definitions a concrete run of the loop unfolds.\<close>

lemmas evals = loop_def loop_disconnect_def loop_connect_def disconnect_edge_def
  connect_edge_def delay_def onConnect_def onDisconnect_def all_events_def
  setup_sketch_eq power_on_def Let_def

subsection \<open>The stored value of the characteristic\<close>

lemma charValue_onWrite:
  "charValue (onWrite s) =
     (if charValue s = ''STATUS'' then (if ledState s then ''LED_ON'' else ''LED_OFF'')
      else charValue s)"
proof (cases s rule: onWrite_cases)
  case empty then show ?thesis by (simp add: onWrite_empty)
next
  case on then show ?thesis by (simp add: onWrite_ON)
next
  case off then show ?thesis by (simp add: onWrite_OFF)
next
  case toggle then show ?thesis by (simp add: onWrite_TOGGLE)
next
  case status then show ?thesis by (simp add: onWrite_STATUS)
next
  case other then show ?thesis by (simp add: onWrite_other)
qed

lemma charValue_deliver:
  "\<not> is_write e \<Longrightarrow> charValue (deliver e s) = charValue s"
  by (cases e) (simp_all add: onConnect_def onDisconnect_def Serial_println_def)

lemma charValue_deliver_all:
  "filter is_write evs = [] \<Longrightarrow> charValue (deliver_all evs s) = charValue s"
proof (induction evs arbitrary: s)
  case Nil
  show ?case by simp
next
  case (Cons e evs)
  from Cons.prems have "\<not> is_write e" "filter is_write evs = []"
    by (simp_all split: if_splits)
  with Cons.IH [of "deliver e s"] show ?case
    by (simp add: charValue_deliver del: deliver.simps)
qed

lemma charValue_loop:
  assumes "filter is_write (evs1 @ evs2) = []"
  shows "charValue (loop evs1 evs2 s) = charValue s"
proof -
  from assms have q: "filter is_write evs1 = []" "filter is_write evs2 = []"
    by simp_all
  have a: "charValue (loop_disconnect evs1 s) = charValue s"
    using q by (simp add: loop_disconnect_def Let_def prims delay_def charValue_deliver_all)
  have b: "charValue (loop_connect t) = charValue t" for t
    by (simp add: loop_connect_def)
  show ?thesis
    using q a b by (simp add: loop_def delay_def charValue_deliver_all)
qed

lemma charValue_perform:
  "filter is_write (events_of a) = [] \<Longrightarrow> charValue (perform a s) = charValue s"
proof (cases a)
  case (Event e)
  assume "filter is_write (events_of a) = []"
  with Event have "\<not> is_write e" by (simp split: if_splits)
  with Event show ?thesis by (simp add: charValue_deliver del: deliver.simps)
next
  case (Loop evs1 evs2)
  assume "filter is_write (events_of a) = []"
  with Loop show ?thesis by (simp add: charValue_loop)
qed

lemma charValue_run:
  "filter is_write (all_events acts) = [] \<Longrightarrow> charValue (run acts s) = charValue s"
proof (induction acts arbitrary: s)
  case Nil
  show ?case by simp
next
  case (Cons a acts)
  from Cons.prems have "filter is_write (events_of a) = []" "filter is_write (all_events acts) = []"
    by (simp_all add: all_events_def)
  with Cons.IH [of "perform a s"] show ?case
    by (simp add: charValue_perform)
qed

section \<open>The claims\<close>

text \<open>
  Claim C1. Starting from the state \<open>setup()\<close> leaves (flag false, pin low), after any
  finite sequence of \<open>ON\<close>, \<open>OFF\<close> and \<open>TOGGLE\<close> writes the flag \<open>ledState\<close> is the
  left fold of the sequence over \<open>False\<close> with ON giving true, OFF giving false and
  TOGGLE negating; and after every prefix of the sequence the LED pin is at the level of
  the flag.
\<close>

theorem commands_fold:
  "ledState (deliver_all (map (Write \<circ> token) cmds) (setup_sketch (power_on lv)))
     = foldl spec_step False cmds
   \<and> (\<forall>k \<le> length cmds.
        in_sync (deliver_all (map (Write \<circ> token) (take k cmds)) (setup_sketch (power_on lv))))"
proof -
  have "in_sync (deliver_all evs (setup_sketch (power_on lv)))" for evs
    using in_sync_setup paired_deliver_all by (rule paired_in_sync)
  then show ?thesis
    by (simp add: ledState_deliver_tokens ledState_setup)
qed

theorem commands_fold_witness:
  "ledState (deliver_all (map (Write \<circ> token) [TOGGLE, ON, TOGGLE, OFF, TOGGLE])
      (setup_sketch (power_on all_low))) = True
   \<and> (2::nat) \<le> length [TOGGLE, ON, TOGGLE, OFF, TOGGLE]
   \<and> in_sync (deliver_all (map (Write \<circ> token) (take 2 [TOGGLE, ON, TOGGLE, OFF, TOGGLE]))
      (setup_sketch (power_on all_low)))"
proof -
  note t = commands_fold [of "[TOGGLE, ON, TOGGLE, OFF, TOGGLE]" all_low]
  from t have "ledState (deliver_all (map (Write \<circ> token) [TOGGLE, ON, TOGGLE, OFF, TOGGLE])
      (setup_sketch (power_on all_low))) = True"
    by simp
  moreover have le: "(2::nat) \<le> length [TOGGLE, ON, TOGGLE, OFF, TOGGLE]"
    by simp
  moreover from t le
  have "in_sync (deliver_all (map (Write \<circ> token) (take 2 [TOGGLE, ON, TOGGLE, OFF, TOGGLE]))
      (setup_sketch (power_on all_low)))"
    by blast
  ultimately show ?thesis by blast
qed

text \<open>
  Claim C2. The LED pin is at the level of \<open>ledState\<close> in the state \<open>setup()\<close> leaves and
  in every state reached from it by events and loop iterations; every operation keeps
  the two equal, and an operation that changes \<open>ledState\<close> ends with the pin driven to
  the new value.
\<close>

theorem led_mirrors_pin:
  "in_sync (setup_sketch (power_on lv))
   \<and> in_sync (run acts (setup_sketch (power_on lv)))
   \<and> (in_sync s \<longrightarrow> in_sync (perform a s))
   \<and> (ledState (perform a s) \<noteq> ledState s \<longrightarrow> in_sync (perform a s))"
proof -
  have "in_sync (run acts (setup_sketch (power_on lv)))"
    using in_sync_setup paired_run by (rule paired_in_sync)
  moreover have "in_sync s \<longrightarrow> in_sync (perform a s)"
    using paired_perform [of s a] by (blast intro: paired_in_sync)
  moreover have "ledState (perform a s) \<noteq> ledState s \<longrightarrow> in_sync (perform a s)"
    using paired_perform [of s a] by (auto simp: paired_def)
  ultimately show ?thesis
    using in_sync_setup by blast
qed

theorem led_mirrors_pin_witness:
  "in_sync (run [Event Connect, Event (Write ''TOGGLE''), Loop [] [Write ''OFF''],
        Event Disconnect, Loop [Write ''ON''] [Connect]] (setup_sketch (power_on all_low)))
   \<and> ledState (perform (Event (Write ''ON'')) (setup_sketch (power_on all_low)))
       \<noteq> ledState (setup_sketch (power_on all_low))
   \<and> in_sync (setup_sketch (power_on all_low))
   \<and> in_sync (perform (Event (Write ''ON'')) (setup_sketch (power_on all_low)))"
proof -
  note t = led_mirrors_pin [of all_low
      "[Event Connect, Event (Write ''TOGGLE''), Loop [] [Write ''OFF''],
        Event Disconnect, Loop [Write ''ON''] [Connect]]"
      "setup_sketch (power_on all_low)" "Event (Write ''ON'')"]
  have "ledState (perform (Event (Write ''ON'')) (setup_sketch (power_on all_low)))
       \<noteq> ledState (setup_sketch (power_on all_low))"
    by (simp add: onWrite_ON setValue_def setup_sketch_eq power_on_def)
  with t show ?thesis by blast
qed

text \<open>
  Claim C3. In every state, a \<open>STATUS\<close> write leaves \<open>ledState\<close> and the pin levels
  as they were and sends exactly one notification, whose payload is \<open>LED_ON\<close> when
  \<open>ledState\<close> is true and \<open>LED_OFF\<close> when it is false.
\<close>

theorem status_reports:
  "ledState (deliver (Write ''STATUS'') s) = ledState s
   \<and> gpioLevel (deliver (Write ''STATUS'') s) = gpioLevel s
   \<and> notified (deliver (Write ''STATUS'') s)
       = notified s @ [if ledState s then ''LED_ON'' else ''LED_OFF'']"
  by (simp add: onWrite_STATUS setValue_def)

theorem status_reports_witness:
  "notified (deliver (Write ''STATUS'') (deliver (Write ''ON'') (setup_sketch (power_on all_low))))
     = [''LED_ON'']
   \<and> notified (deliver (Write ''STATUS'') (setup_sketch (power_on all_low))) = [''LED_OFF'']
   \<and> ledState (deliver (Write ''STATUS'') (deliver (Write ''ON'') (setup_sketch (power_on all_low))))
   \<and> gpioLevel (deliver (Write ''STATUS'') (deliver (Write ''ON'') (setup_sketch (power_on all_low))))
        LED_PIN = HIGH"
  using status_reports [of "deliver (Write ''ON'') (setup_sketch (power_on all_low))"]
    status_reports [of "setup_sketch (power_on all_low)"]
  by (simp add: onWrite_ON setValue_def setup_sketch_eq power_on_def)

text \<open>
  Claim C4. A non-empty write payload that is not exactly one of \<open>ON\<close>, \<open>OFF\<close>,
  \<open>TOGGLE\<close>, \<open>STATUS\<close> (equality of the byte strings) leaves \<open>ledState\<close> and the pin
  levels as they were and sends no notification.
\<close>

theorem unrecognised_ignored:
  assumes "p \<noteq> []" and "p \<notin> {''ON'', ''OFF'', ''TOGGLE'', ''STATUS''}"
  shows "ledState (deliver (Write p) s) = ledState s
   \<and> gpioLevel (deliver (Write p) s) = gpioLevel s
   \<and> notified (deliver (Write p) s) = notified s"
proof -
  have "onWrite (setValue p s)
      = (setValue p s)\<lparr>serial := serial (setValue p s) @ ''Received: '' @ crlf
          @ charValue (setValue p s) @ crlf\<rparr>"
    using assms by (intro onWrite_other) (simp_all add: setValue_def)
  then show ?thesis
    by (simp add: setValue_def)
qed

theorem unrecognised_ignored_witness:
  "''on'' \<noteq> [] \<and> ''on'' \<notin> {''ON'', ''OFF'', ''TOGGLE'', ''STATUS''}
   \<and> ''On'' \<noteq> [] \<and> ''On'' \<notin> {''ON'', ''OFF'', ''TOGGLE'', ''STATUS''}
   \<and> ''ON '' \<noteq> [] \<and> ''ON '' \<notin> {''ON'', ''OFF'', ''TOGGLE'', ''STATUS''}
   \<and> ledState (deliver (Write ''on'') (deliver (Write ''OFF'') (setup_sketch (power_on all_low))))
        = False
   \<and> ledState (deliver (Write ''On'') (deliver (Write ''OFF'') (setup_sketch (power_on all_low))))
        = False
   \<and> ledState (deliver (Write ''ON '') (deliver (Write ''OFF'') (setup_sketch (power_on all_low))))
        = False
   \<and> gpioLevel (deliver (Write ''on'') (deliver (Write ''OFF'') (setup_sketch (power_on all_low))))
        LED_PIN = LOW
   \<and> gpioLevel (deliver (Write ''On'') (deliver (Write ''OFF'') (setup_sketch (power_on all_low))))
        LED_PIN = LOW
   \<and> gpioLevel (deliver (Write ''ON '') (deliver (Write ''OFF'') (setup_sketch (power_on all_low))))
        LED_PIN = LOW
   \<and> notified (deliver (Write ''on'') (deliver (Write ''OFF'') (setup_sketch (power_on all_low))))
        = []
   \<and> notified (deliver (Write ''On'') (deliver (Write ''OFF'') (setup_sketch (power_on all_low))))
        = []
   \<and> notified (deliver (Write ''ON '') (deliver (Write ''OFF'') (setup_sketch (power_on all_low))))
        = []"
proof -
  have ne: "''on'' \<noteq> []" "''On'' \<noteq> []" "''ON '' \<noteq> []"
    by simp_all
  have out: "''on'' \<notin> {''ON'', ''OFF'', ''TOGGLE'', ''STATUS''}"
    "''On'' \<notin> {''ON'', ''OFF'', ''TOGGLE'', ''STATUS''}"
    "''ON '' \<notin> {''ON'', ''OFF'', ''TOGGLE'', ''STATUS''}"
    by simp_all
  note t = unrecognised_ignored [OF ne(1) out(1)] unrecognised_ignored [OF ne(2) out(2)]
    unrecognised_ignored [OF ne(3) out(3)]
  have base: "ledState (deliver (Write ''OFF'') (setup_sketch (power_on all_low))) = False"
    "gpioLevel (deliver (Write ''OFF'') (setup_sketch (power_on all_low))) LED_PIN = LOW"
    "notified (deliver (Write ''OFF'') (setup_sketch (power_on all_low))) = []"
    by (simp_all add: onWrite_OFF setValue_def setup_sketch_eq power_on_def)
  show ?thesis
    using ne out by (simp add: t base del: deliver.simps)
qed

text \<open>
  Claim C5. In every state, a write whose payload has length zero leaves \<open>ledState\<close>
  and the pin levels as they were, sends no notification and writes nothing to the log:
  the callback returns at the length check.
\<close>

theorem empty_write_ignored:
  "onWrite (setValue [] s) = setValue [] s
   \<and> ledState (deliver (Write []) s) = ledState s
   \<and> gpioLevel (deliver (Write []) s) = gpioLevel s
   \<and> notified (deliver (Write []) s) = notified s
   \<and> serial (deliver (Write []) s) = serial s"
  by (simp add: onWrite_empty setValue_def)

theorem empty_write_ignored_witness:
  "deliver (Write []) (deliver (Write ''ON'') (setup_sketch (power_on all_low)))
     = setValue [] (deliver (Write ''ON'') (setup_sketch (power_on all_low)))
   \<and> ledState (deliver (Write []) (deliver (Write ''ON'') (setup_sketch (power_on all_low))))
   \<and> notified (deliver (Write []) (setup_sketch (power_on all_low))) = []
   \<and> serial (deliver (Write []) (power_on all_low)) = []"
  using empty_write_ignored [of "deliver (Write ''ON'') (setup_sketch (power_on all_low))"]
    empty_write_ignored [of "setup_sketch (power_on all_low)"]
    empty_write_ignored [of "power_on all_low"]
  by (simp add: onWrite_ON setValue_def setup_sketch_eq power_on_def)

text \<open>
  Claim C6. A loop iteration that finds \<open>deviceConnected\<close> false and
  \<open>oldDeviceConnected\<close> true makes one advertising-start request, at a time at least
  500 ms after the iteration began. If no client connects from then on, that request is
  the only one, however many iterations and events follow; and an iteration that finds
  the two flags equal makes no request.
\<close>

theorem readvertise_once:
  assumes "disconnect_edge s"
  shows "advertised (loop evs1 evs2 s) = advertised s @ [clock s + 500]
   \<and> clock s + 500 \<le> last (advertised (loop evs1 evs2 s))
   \<and> (Connect \<notin> set (all_events (Loop evs1 evs2 # acts)) \<longrightarrow>
        advertised (run (Loop evs1 evs2 # acts) s) = advertised s @ [clock s + 500])
   \<and> (deviceConnected t = oldDeviceConnected t \<longrightarrow>
        advertised (loop evs3 evs4 t) = advertised t)"
proof -
  have one: "advertised (loop evs1 evs2 s) = advertised s @ [clock s + 500]"
    using assms by (simp add: loop_fields loop_disconnect_taken)
  have rest: "advertised (run (Loop evs1 evs2 # acts) s) = advertised s @ [clock s + 500]"
    if quiet: "Connect \<notin> set (all_events (Loop evs1 evs2 # acts))"
  proof -
    from quiet have q: "Connect \<notin> set evs1" "Connect \<notin> set evs2"
      "Connect \<notin> set (all_events acts)"
      by (simp_all add: all_events_def)
    from assms have down: "\<not> deviceConnected s"
      by (simp add: disconnect_edge_def)
    with q have d1: "\<not> deviceConnected (delay 500 evs1 s)"
      by (simp add: delay_fields stays_disconnected)
    with assms have f1: "\<not> deviceConnected (loop_disconnect evs1 s)"
      "\<not> oldDeviceConnected (loop_disconnect evs1 s)"
      by (simp_all add: loop_disconnect_taken)
    then have "\<not> deviceConnected (loop_connect (loop_disconnect evs1 s))"
      by (simp add: loop_connect_fields)
    with q have "\<not> deviceConnected (deliver_all evs2 (loop_connect (loop_disconnect evs1 s)))"
      by (intro stays_disconnected)
    with f1 have "\<not> deviceConnected (loop evs1 evs2 s)" "\<not> oldDeviceConnected (loop evs1 evs2 s)"
      by (simp_all add: loop_fields)
    with q idle_run [of "loop evs1 evs2 s" acts] one show ?thesis
      by simp
  qed
  from one rest loop_synchronised [of t evs3 evs4] show ?thesis
    by simp
qed

theorem readvertise_once_witness:
  "disconnect_edge (run [Event Connect, Loop [] [], Event Disconnect] (setup_sketch (power_on all_low)))
   \<and> Connect \<notin> set (all_events [Loop [Disconnect] [], Loop [] [Write ''ON''], Loop [] []])
   \<and> advertised (run [Loop [Disconnect] [], Loop [] [Write ''ON''], Loop [] []]
        (run [Event Connect, Loop [] [], Event Disconnect] (setup_sketch (power_on all_low))))
       = [0, 510]"
proof -
  have edge: "disconnect_edge (run [Event Connect, Loop [] [], Event Disconnect]
      (setup_sketch (power_on all_low)))"
    by (simp add: evals prims)
  have quiet: "Connect \<notin> set (all_events [Loop [Disconnect] [], Loop [] [Write ''ON''], Loop [] []])"
    by (simp add: all_events_def)
  have before: "advertised (run [Event Connect, Loop [] [], Event Disconnect]
      (setup_sketch (power_on all_low))) = [0]"
    "clock (run [Event Connect, Loop [] [], Event Disconnect]
      (setup_sketch (power_on all_low))) = 10"
    by (simp_all add: evals prims)
  from readvertise_once [OF edge, of "[Disconnect]" "[]" "[Loop [] [Write ''ON''], Loop [] []]"]
    quiet before edge
  show ?thesis
    by (simp del: run_Cons perform.simps)
qed

text \<open>
  Claim C7, as the spec states it: once a first \<open>STATUS\<close> command has been processed,
  the characteristic holds the last status string. The stack stores every written
  payload in the characteristic, so the claim fails: after \<open>setup()\<close>, the writes
  \<open>STATUS\<close> and then \<open>ON\<close> leave the value \<open>ON\<close>, while the last status string sent
  is \<open>LED_OFF\<close>.
\<close>

theorem status_value_replaced_counterexample:
  "charValue (deliver_all [Write ''STATUS'', Write ''ON''] (setup_sketch (power_on all_low)))
     = ''ON''
   \<and> last (notified (deliver_all [Write ''STATUS'', Write ''ON''] (setup_sketch (power_on all_low))))
     = ''LED_OFF''
   \<and> charValue (deliver_all [Write ''STATUS'', Write ''ON''] (setup_sketch (power_on all_low)))
     \<noteq> last (notified (deliver_all [Write ''STATUS'', Write ''ON''] (setup_sketch (power_on all_low))))"
  by (simp add: onWrite_STATUS onWrite_ON setValue_def setup_sketch_eq power_on_def)

text \<open>
  Claim C7, amended. After \<open>setup()\<close> the characteristic holds \<open>Hello World\<close>. A
  \<open>STATUS\<close> write stores the status string in the characteristic and then notifies, so
  the notification carries the status string, and right after the command the
  characteristic holds that status string and not \<open>Hello World\<close>. The value stays
  until the next write: connection events and loop iterations without a write keep it,
  and a write of any payload other than \<open>STATUS\<close> leaves that payload as the value.
\<close>

theorem status_value_until_next_write:
  "charValue (setup_sketch (power_on lv)) = ''Hello World''
   \<and> charValue (deliver (Write ''STATUS'') s) = (if ledState s then ''LED_ON'' else ''LED_OFF'')
   \<and> last (notified (deliver (Write ''STATUS'') s)) = charValue (deliver (Write ''STATUS'') s)
   \<and> charValue (deliver (Write ''STATUS'') s) \<noteq> ''Hello World''
   \<and> (filter is_write (all_events acts) = [] \<longrightarrow>
        charValue (run acts (deliver (Write ''STATUS'') s))
          = (if ledState s then ''LED_ON'' else ''LED_OFF''))
   \<and> (p \<noteq> ''STATUS'' \<longrightarrow> charValue (deliver (Write p) t) = p)"
proof -
  have now: "charValue (deliver (Write ''STATUS'') s) = (if ledState s then ''LED_ON'' else ''LED_OFF'')"
    by (simp add: onWrite_STATUS setValue_def)
  have kept: "charValue (run acts (deliver (Write ''STATUS'') s))
      = (if ledState s then ''LED_ON'' else ''LED_OFF'')"
    if "filter is_write (all_events acts) = []"
    using that now by (simp add: charValue_run del: deliver.simps)
  have other: "charValue (deliver (Write p) t) = p" if "p \<noteq> ''STATUS''"
    using that by (simp add: charValue_onWrite setValue_def)
  have sent: "last (notified (deliver (Write ''STATUS'') s)) = charValue (deliver (Write ''STATUS'') s)"
    by (simp add: onWrite_STATUS setValue_def)
  have start: "charValue (setup_sketch (power_on lv)) = ''Hello World''"
    by (simp add: setup_sketch_eq power_on_def)
  from now have gone: "charValue (deliver (Write ''STATUS'') s) \<noteq> ''Hello World''"
    by simp
  from start now sent gone kept other show ?thesis
    by blast
qed

theorem status_value_until_next_write_witness:
  "filter is_write (all_events [Event Disconnect, Loop [] [Connect], Loop [] []]) = []
   \<and> ''ON'' \<noteq> ''STATUS''
   \<and> charValue (setup_sketch (power_on all_low)) = ''Hello World''
   \<and> charValue (run [Event Disconnect, Loop [] [Connect], Loop [] []]
        (deliver (Write ''STATUS'') (setup_sketch (power_on all_low)))) = ''LED_OFF''
   \<and> charValue (deliver (Write ''ON'')
        (deliver (Write ''STATUS'') (setup_sketch (power_on all_low)))) = ''ON''"
proof -
  have quiet: "filter is_write (all_events [Event Disconnect, Loop [] [Connect], Loop [] []]) = []"
    by (simp add: all_events_def)
  have other: "''ON'' \<noteq> ''STATUS''"
    by simp
  have off: "\<not> ledState (setup_sketch (power_on all_low))"
    by (simp add: setup_sketch_eq power_on_def)
  from status_value_until_next_write [of all_low "setup_sketch (power_on all_low)"
      "[Event Disconnect, Loop [] [Connect], Loop [] []]" "''ON''"
      "deliver (Write ''STATUS'') (setup_sketch (power_on all_low))"]
    quiet other off
  show ?thesis
    by (simp del: deliver.simps run_Cons perform.simps)
qed

text \<open>
  Claim C8. Whatever \<open>deviceConnected\<close> was, \<open>onConnect\<close> sets it to true and
  \<open>onDisconnect\<close> sets it to false; neither touches \<open>oldDeviceConnected\<close> or
  \<open>ledState\<close>; and running either handler twice leaves the same flags as running it
  once. The two runs differ in the log only, which gets one line for each call.
\<close>

theorem lifecycle_idempotent:
  "flags (onConnect s) = (True, oldDeviceConnected s, ledState s)
   \<and> flags (onDisconnect s) = (False, oldDeviceConnected s, ledState s)
   \<and> flags (onConnect (onConnect s)) = flags (onConnect s)
   \<and> flags (onDisconnect (onDisconnect s)) = flags (onDisconnect s)
   \<and> (onConnect (onConnect s))\<lparr>serial := l\<rparr> = (onConnect s)\<lparr>serial := l\<rparr>
   \<and> (onDisconnect (onDisconnect s))\<lparr>serial := l\<rparr> = (onDisconnect s)\<lparr>serial := l\<rparr>"
  by (simp add: flags_def onConnect_def onDisconnect_def Serial_println_def)

theorem lifecycle_idempotent_witness:
  "flags (onConnect (onConnect (setup_sketch (power_on all_low)))) = (True, False, False)
   \<and> flags (onDisconnect (onDisconnect (onConnect (setup_sketch (power_on all_low)))))
       = (False, False, False)"
  using lifecycle_idempotent [of "setup_sketch (power_on all_low)"]
    lifecycle_idempotent [of "onConnect (setup_sketch (power_on all_low))"]
  by (simp add: flags_def setup_sketch_eq power_on_def)

text \<open>
  Claim C9, as the spec states it: a non-empty payload that is none of the four command
  strings leaves the log unchanged. The code echoes every non-empty payload before it
  compares it, so the claim fails: after \<open>setup()\<close>, the write \<open>FOO\<close> adds the lines
  \<open>Received: \<close> and \<open>FOO\<close> to the log.
\<close>

theorem unrecognised_logged_counterexample:
  "''FOO'' \<noteq> [] \<and> ''FOO'' \<notin> {''ON'', ''OFF'', ''TOGGLE'', ''STATUS''}
   \<and> serial (deliver (Write ''FOO'') (setup_sketch (power_on all_low)))
       = serial (setup_sketch (power_on all_low)) @ ''Received: '' @ crlf @ ''FOO'' @ crlf
   \<and> serial (deliver (Write ''FOO'') (setup_sketch (power_on all_low)))
       \<noteq> serial (setup_sketch (power_on all_low))"
  by (simp add: onWrite_other setValue_def)

text \<open>
  Claim C9, amended. A non-empty payload that is none of the four command strings is
  echoed to the log, as the line \<open>Received: \<close> followed by the payload bytes and a line
  end, and adds nothing else to the log: no line for an action and none for an error.
\<close>

theorem unrecognised_echo_only:
  assumes "p \<noteq> []" and "p \<notin> {''ON'', ''OFF'', ''TOGGLE'', ''STATUS''}"
  shows "serial (deliver (Write p) s) = serial s @ ''Received: '' @ crlf @ p @ crlf"
proof -
  have "onWrite (setValue p s)
      = (setValue p s)\<lparr>serial := serial (setValue p s) @ ''Received: '' @ crlf
          @ charValue (setValue p s) @ crlf\<rparr>"
    using assms by (intro onWrite_other) (simp_all add: setValue_def)
  then show ?thesis
    by (simp add: setValue_def)
qed

theorem unrecognised_echo_only_witness:
  "''on'' \<noteq> [] \<and> ''on'' \<notin> {''ON'', ''OFF'', ''TOGGLE'', ''STATUS''}
   \<and> serial (deliver (Write ''on'') (power_on all_low)) = ''Received: '' @ crlf @ ''on'' @ crlf"
proof -
  have ne: "''on'' \<noteq> []" by simp
  have out: "''on'' \<notin> {''ON'', ''OFF'', ''TOGGLE'', ''STATUS''}" by simp
  show ?thesis
    using ne out unrecognised_echo_only [OF ne out, of "power_on all_low"]
    by (simp add: power_on_def)
qed

text \<open>
  Claim C10. In an iteration that takes the disconnect branch, \<open>oldDeviceConnected\<close>
  gets the value \<open>deviceConnected\<close> has after the 500 ms delay, not the constant false.
  So if a client has connected during the delay, \<open>oldDeviceConnected\<close> becomes true, the
  second \<open>if\<close> of that iteration finds its guard false and changes nothing, and as long
  as the client stays connected both flags stay true, so no later iteration finds the
  guard of the second \<open>if\<close> true either.
\<close>

theorem reconnect_during_settle:
  assumes "disconnect_edge s"
  shows "oldDeviceConnected (loop_disconnect evs s) = deviceConnected (delay 500 evs s)
   \<and> (deviceConnected (delay 500 evs s) \<longrightarrow>
        oldDeviceConnected (loop_disconnect evs s)
        \<and> \<not> connect_edge (loop_disconnect evs s)
        \<and> loop_connect (loop_disconnect evs s) = loop_disconnect evs s
        \<and> (Disconnect \<notin> set evs2 \<and> Disconnect \<notin> set (all_events acts) \<longrightarrow>
             deviceConnected (run acts (loop evs evs2 s))
             \<and> oldDeviceConnected (run acts (loop evs evs2 s))
             \<and> \<not> connect_edge (loop_disconnect evs3 (run acts (loop evs evs2 s)))))"
proof -
  note taken = loop_disconnect_taken [OF assms, of evs]
  have later: "deviceConnected (run acts (loop evs evs2 s))
      \<and> oldDeviceConnected (run acts (loop evs evs2 s))
      \<and> \<not> connect_edge (loop_disconnect evs3 (run acts (loop evs evs2 s)))"
    if up: "deviceConnected (delay 500 evs s)"
      and calm: "Disconnect \<notin> set evs2" "Disconnect \<notin> set (all_events acts)"
  proof -
    from up taken have "deviceConnected (loop_connect (loop_disconnect evs s))"
      by (simp add: loop_connect_fields)
    with calm have "deviceConnected (deliver_all evs2 (loop_connect (loop_disconnect evs s)))"
      by (intro stays_connected)
    with up taken have "deviceConnected (loop evs evs2 s)" "oldDeviceConnected (loop evs evs2 s)"
      by (simp_all add: loop_fields)
    with calm have both: "deviceConnected (run acts (loop evs evs2 s))
        \<and> oldDeviceConnected (run acts (loop evs evs2 s))"
      by (intro linked_run)
    then have "loop_disconnect evs3 (run acts (loop evs evs2 s)) = run acts (loop evs evs2 s)"
      by (simp add: loop_disconnect_skipped disconnect_edge_def)
    with both show ?thesis
      by (simp add: connect_edge_def)
  qed
  have now: "\<not> connect_edge (loop_disconnect evs s)
      \<and> loop_connect (loop_disconnect evs s) = loop_disconnect evs s"
    if "deviceConnected (delay 500 evs s)"
    using that taken by (simp add: connect_edge_def loop_connect_def)
  from taken later now show ?thesis
    by blast
qed

theorem reconnect_during_settle_witness:
  "disconnect_edge (run [Event Connect, Loop [] [], Event Disconnect] (setup_sketch (power_on all_low)))
   \<and> deviceConnected (delay 500 [Connect]
        (run [Event Connect, Loop [] [], Event Disconnect] (setup_sketch (power_on all_low))))
   \<and> oldDeviceConnected (loop_disconnect [Connect]
        (run [Event Connect, Loop [] [], Event Disconnect] (setup_sketch (power_on all_low))))
   \<and> \<not> connect_edge (loop_disconnect [Connect]
        (run [Event Connect, Loop [] [], Event Disconnect] (setup_sketch (power_on all_low))))
   \<and> Disconnect \<notin> set [Write ''ON''] \<and> Disconnect \<notin> set (all_events [Loop [] [], Event Connect])
   \<and> \<not> connect_edge (loop_disconnect [] (run [Loop [] [], Event Connect] (loop [Connect] [Write ''ON'']
        (run [Event Connect, Loop [] [], Event Disconnect] (setup_sketch (power_on all_low))))))"
proof -
  have edge: "disconnect_edge (run [Event Connect, Loop [] [], Event Disconnect]
      (setup_sketch (power_on all_low)))"
    by (simp add: evals prims)
  have up: "deviceConnected (delay 500 [Connect]
        (run [Event Connect, Loop [] [], Event Disconnect] (setup_sketch (power_on all_low))))"
    by (simp add: evals prims)
  have calm: "Disconnect \<notin> set [Write ''ON'']"
    "Disconnect \<notin> set (all_events [Loop [] [], Event Connect])"
    by (simp_all add: all_events_def)
  from reconnect_during_settle [OF edge, of "[Connect]" "[Write ''ON'']" "[Loop [] [], Event Connect]" "[]"]
    edge up calm
  show ?thesis
    by blast
qed

end
